theory Spec2Isabelle
  imports Main
begin

section \<open>Values\<close>

text \<open>
  The relay of \<^verbatim>\<open>src/subscriptions.js\<close> works on parsed JSON. An object is kept as
  its list of key/value pairs in the order of the text; a parsed object has each key once.
  Numbers are the integers (timestamps and identifiers are the only numbers the relay
  reads).
\<close>

datatype json =
    JNull
  | JBool bool
  | JNum int
  | JStr string
  | JArr "json list"
  | JObj "(string \<times> json) list"

text \<open>
  What a delivery or a stage can fail with: the \<^verbatim>\<open>TypeError\<close> the runtime raises
  (a property read on \<^verbatim>\<open>null\<close> or \<^verbatim>\<open>undefined\<close>, a call of something that is
  not a function), a string passed to \<^verbatim>\<open>reject\<close>, and the opaque error a transport
  reports.
\<close>

datatype failure =
    TypeError
  | Reason string
  | DeliveryError string

text \<open>
  \<^verbatim>\<open>x.k\<close>: \<^verbatim>\<open>undefined\<close> is \<open>None\<close>. Only an object has one of the
  keys the relay reads; a string, a number, a boolean or an array gives
  \<^verbatim>\<open>undefined\<close>, and \<^verbatim>\<open>null\<close> raises.
\<close>

fun get :: "json \<Rightarrow> string \<Rightarrow> json option" where
  "get (JObj kvs) k = map_of kvs k"
| "get _ k = None"

definition read_prop :: "json \<Rightarrow> string \<Rightarrow> failure + json option" where
  "read_prop x k = (if x = JNull then Inl TypeError else Inr (get x k))"

text \<open>The truth value of a condition \<^verbatim>\<open>if (v)\<close>.\<close>

fun truthy :: "json option \<Rightarrow> bool" where
  "truthy None = False"
| "truthy (Some JNull) = False"
| "truthy (Some (JBool b)) = b"
| "truthy (Some (JNum n)) = (n \<noteq> 0)"
| "truthy (Some (JStr s)) = (s \<noteq> [])"
| "truthy (Some (JArr xs)) = True"
| "truthy (Some (JObj kvs)) = True"

text \<open>\<^verbatim>\<open>Object.keys(x)\<close> of an object.\<close>

fun object_keys :: "json \<Rightarrow> string list" where
  "object_keys (JObj kvs) = map fst kvs"
| "object_keys _ = []"

section \<open>Configuration\<close>

text \<open>
  One entry of \<^verbatim>\<open>config.get("services")\<close>, each field of the source under the
  prefix \<open>svc\<close>. \<^verbatim>\<open>type\<close>, \<^verbatim>\<open>fields\<close> and \<^verbatim>\<open>token\<close> may be missing;
  \<^verbatim>\<open>fields\<close> is a list of strings.
\<close>

record service =
  svc_type :: "string option"
  svc_fields :: "string list option"
  svc_test :: bool
  svc_token :: "string option"
  svc_url :: string
  svc_methodName :: string

section \<open>Subscription filter\<close>

definition MESSAGE_FIELD_MAP :: "string \<rightharpoonup> string" where
  "MESSAGE_FIELD_MAP = map_of
     [(''messages'', ''message''),
      (''message_deliveries'', ''delivery''),
      (''messaging_optins'', ''optin''),
      (''messaging_postbacks'', ''postback''),
      (''message_reads'', ''read'')]"

text \<open>
  \<^verbatim>\<open>serviceFields.indexOf(v) !== -1\<close> with strict equality: a list of strings holds
  \<open>v\<close> only when \<open>v\<close> is one of its strings.
\<close>

fun index_of_found :: "string list \<Rightarrow> json option \<Rightarrow> bool" where
  "index_of_found xs (Some (JStr s)) = (s \<in> set xs)"
| "index_of_found xs _ = False"

text \<open>
  \<^verbatim>\<open>validateFields\<close>. In the message branch the service's fields are mapped through
  the table (a name the table lacks gives no string, and never equals a key), and the item
  is valid when one of its keys is among them.
\<close>

definition validateFields :: "string list \<Rightarrow> json \<Rightarrow> failure + bool" where
  "validateFields serviceFields item =
     (case read_prop item ''field'' of
        Inl e \<Rightarrow> Inl e
      | Inr f \<Rightarrow>
          if truthy f then Inr (index_of_found serviceFields f)
          else if truthy (get item ''sender'') then
            (let fs = map MESSAGE_FIELD_MAP serviceFields
             in Inr (list_ex (\<lambda>key. Some key \<in> set fs) (object_keys item)))
          else Inr False)"

text \<open>
  The condition of \<^verbatim>\<open>pushItem\<close> under which a service receives an item:
  \<^verbatim>\<open>!service.fields || !service.fields.length || validateFields(service.fields, item)\<close>.
\<close>

definition subscribed :: "service \<Rightarrow> json \<Rightarrow> failure + bool" where
  "subscribed svc item =
     (case svc_fields svc of
        None \<Rightarrow> Inr True
      | Some fs \<Rightarrow> if fs = [] then Inr True else validateFields fs item)"

section \<open>Outbound envelope and transports\<close>

text \<open>
  A key whose value is \<^verbatim>\<open>undefined\<close> is not sent: the envelope is modelled as it is
  serialised.
\<close>

definition opt_pair :: "string \<Rightarrow> json option \<Rightarrow> (string \<times> json) list" where
  "opt_pair k v = (case v of None \<Rightarrow> [] | Some x \<Rightarrow> [(k, x)])"

definition getBody :: "json option \<Rightarrow> json option \<Rightarrow> json \<Rightarrow> failure + json" where
  "getBody facebookId time item =
     (case read_prop item ''field'' of
        Inl e \<Rightarrow> Inl e
      | Inr f \<Rightarrow>
          Inr (JObj
            [(''object'', JStr ''page''),
             (''entry'', JArr [JObj
                (opt_pair ''time'' time @ opt_pair ''id'' facebookId
                 @ (if truthy f then [(''changes'', JArr [item])] else [])
                 @ (if truthy (get item ''sender'')
                    then [(''messaging'', JArr [item])] else []))])]))"

text \<open>
  A network call the relay issues: \<^verbatim>\<open>client.call(methodName, [arg], callback)\<close> on
  the client registered under the service's name, or \<^verbatim>\<open>axios.post(url, body)\<close>.
\<close>

datatype call =
    DdpCall string string json
  | HttpPost string json

text \<open>
  What starting one delivery does, before anything comes back from the network.
  \<open>Issued c t\<close>: the call \<open>c\<close> is on the wire, for a service whose \<^verbatim>\<open>test\<close>
  flag is \<open>t\<close>. \<open>Refused e\<close>: the promise of \<^verbatim>\<open>pushItem\<close> is rejected inside
  its own executor, nothing is sent. \<open>Broken e\<close>: the promise built by
  \<^verbatim>\<open>Push.ddp\<close> or \<^verbatim>\<open>Push.http\<close> is rejected inside its executor, nothing is
  sent, and the rejection reaches the promise of \<^verbatim>\<open>pushItem\<close> through its
  \<^verbatim>\<open>.then(...).catch(...)\<close>, two turns of the job queue later.
\<close>

datatype attempt =
    Issued call bool
  | Refused failure
  | Broken failure

text \<open>
  \<^verbatim>\<open>Push(...).ddp\<close>. \<open>clients\<close> is \<^verbatim>\<open>app.get("ddpClients")\<close>, as the names that
  have a client: unset, \<^verbatim>\<open>clients[name]\<close> raises in the body of \<^verbatim>\<open>ddp\<close>; a
  name without a client raises at \<^verbatim>\<open>client.call\<close>, inside the executor.
\<close>

definition Push_ddp ::
  "string list option \<Rightarrow> string \<Rightarrow> service \<Rightarrow> json option \<Rightarrow> json \<Rightarrow> json option \<Rightarrow> attempt" where
  "Push_ddp clients name svc facebookId item time =
     (case clients of
        None \<Rightarrow> Refused TypeError
      | Some cs \<Rightarrow>
          if name \<notin> set cs then Broken TypeError
          else (case getBody facebookId time item of
                  Inl e \<Rightarrow> Broken e
                | Inr data \<Rightarrow>
                    Issued (DdpCall name (svc_methodName svc)
                      (JArr [JObj
                         (opt_pair ''token'' (map_option JStr (svc_token svc))
                          @ opt_pair ''facebookAccountId'' facebookId
                          @ [(''data'', data)])]))
                      (svc_test svc)))"

definition Push_http :: "service \<Rightarrow> json option \<Rightarrow> json \<Rightarrow> json option \<Rightarrow> attempt" where
  "Push_http svc facebookId item time =
     (let u = svc_url svc @
            (case svc_token svc of
               None \<Rightarrow> []
             | Some t \<Rightarrow> if t \<noteq> [] then ''?token='' @ t else [])
      in case getBody facebookId time item of
           Inl e \<Rightarrow> Broken e
         | Inr b \<Rightarrow> Issued (HttpPost u b) (svc_test svc))"

text \<open>
  The callback of \<^verbatim>\<open>client.call\<close> and the \<^verbatim>\<open>then\<close>/\<^verbatim>\<open>catch\<close> of
  \<^verbatim>\<open>axios.post\<close>: what the transport reports (\<open>Inl\<close> an error, \<open>Inr\<close> a reply)
  settles the delivery. \<^verbatim>\<open>resolve()\<close> fulfils with \<^verbatim>\<open>undefined\<close>.
\<close>

datatype settled =
    Fulfilled "json option"
  | Rejected failure

fun Push_settle :: "bool \<Rightarrow> failure + json \<Rightarrow> settled" where
  "Push_settle t (Inr res) = Fulfilled (Some res)"
| "Push_settle t (Inl err) = (if t then Fulfilled None else Rejected err)"

text \<open>
  \<^verbatim>\<open>push[service.type]\<close> reads a property of the object literal
  \<^verbatim>\<open>{ddp: ..., http: ...}\<close>: its own two, or one it inherits from
  \<^verbatim>\<open>Object.prototype\<close>. An inherited one is truthy, and calling it and then
  \<^verbatim>\<open>.then\<close> on what it returns raises a \<^verbatim>\<open>TypeError\<close> inside the executor.
\<close>

definition Object_prototype_names :: "string list" where
  "Object_prototype_names =
     [''constructor'', ''hasOwnProperty'', ''isPrototypeOf'', ''propertyIsEnumerable'',
      ''toLocaleString'', ''toString'', ''valueOf'', ''__proto__'',
      ''__defineGetter__'', ''__defineSetter__'', ''__lookupGetter__'', ''__lookupSetter__'']"

text \<open>The executor of the promise \<^verbatim>\<open>pushItem\<close> makes for one subscribed service.\<close>

definition start_push ::
  "string list option \<Rightarrow> string \<Rightarrow> service \<Rightarrow> json option \<Rightarrow> json \<Rightarrow> json option \<Rightarrow> attempt" where
  "start_push clients name svc facebookId item time =
     (case svc_type svc of
        None \<Rightarrow> Refused (Reason ''Service type not supported'')
      | Some ty \<Rightarrow>
          if ty = ''ddp'' then Push_ddp clients name svc facebookId item time
          else if ty = ''http'' then Push_http svc facebookId item time
          else if ty \<in> set Object_prototype_names then Refused TypeError
          else Refused (Reason ''Service type not supported''))"

text \<open>
  \<^verbatim>\<open>pushItem\<close>: the services in the order of the configuration. When the filter raises
  (the item is \<^verbatim>\<open>null\<close>) the call raises and returns no promise.
\<close>

fun pushItem_loop ::
  "(string \<times> service) list \<Rightarrow> string list option \<Rightarrow> json option \<Rightarrow> json \<Rightarrow> json option
     \<Rightarrow> failure + attempt list" where
  "pushItem_loop [] clients facebookId item time = Inr []"
| "pushItem_loop ((name, svc) # rest) clients facebookId item time =
     (case subscribed svc item of
        Inl e \<Rightarrow> Inl e
      | Inr m \<Rightarrow>
          (case pushItem_loop rest clients facebookId item time of
             Inl e \<Rightarrow> Inl e
           | Inr ps \<Rightarrow>
               Inr ((if m then [start_push clients name svc facebookId item time] else []) @ ps)))"

section \<open>The process: settings and configuration\<close>

text \<open>
  \<^verbatim>\<open>app.get("fbVerifyToken")\<close>, \<^verbatim>\<open>config.get("facebook").clientSecret\<close>,
  \<^verbatim>\<open>config.get("services")\<close> and \<^verbatim>\<open>app.get("ddpClients")\<close>. The digest of the
  \<^verbatim>\<open>crypto\<close> library, \<^verbatim>\<open>createHmac("sha1", key).update(data).digest("hex")\<close>, is
  a parameter: \<open>hmac_sha1_hex env key data\<close>.
\<close>

record env =
  fbVerifyToken :: "string option"
  clientSecret :: string
  services :: "(string \<times> service) list"
  ddpClients :: "string list option"
  hmac_sha1_hex :: "string \<Rightarrow> string \<Rightarrow> string"

definition pushItem :: "env \<Rightarrow> json option \<Rightarrow> json \<Rightarrow> json option \<Rightarrow> failure + attempt list" where
  "pushItem e facebookId item time =
     pushItem_loop (services e) (ddpClients e) facebookId item time"

section \<open>Requests, responses and the three middlewares\<close>

text \<open>
  A request as the middlewares read it: the query parameters and the headers (each a
  string when present), \<^verbatim>\<open>req.rawBody\<close>, which the \<^verbatim>\<open>verify\<close> hook of the JSON
  body parser sets only when it is handed a non-empty buffer, and the parsed
  \<^verbatim>\<open>req.body\<close>.
\<close>

record request =
  query :: "(string \<times> string) list"
  headers :: "(string \<times> string) list"
  rawBody :: "string option"
  body :: json

text \<open>
  What \<^verbatim>\<open>res.send\<close> is given: a string, \<^verbatim>\<open>undefined\<close>, or the error a promise
  was rejected with. \<^verbatim>\<open>res.sendStatus(n)\<close> sends the status with its standard text.
\<close>

datatype sent =
    SendText string
  | SendUndefined
  | SendError failure

datatype response = Response nat sent

definition sendStatus :: "nat \<Rightarrow> response" where
  "sendStatus n =
     Response n (SendText (if n = 200 then ''OK'' else if n = 400 then ''Bad Request'' else []))"

definition send_param :: "string option \<Rightarrow> sent" where
  "send_param v = (case v of None \<Rightarrow> SendUndefined | Some s \<Rightarrow> SendText s)"

text \<open>A middleware calls \<^verbatim>\<open>next()\<close>, answers, or raises.\<close>

datatype step =
    Next
  | Answer response
  | Raise failure

definition validateRequest :: "request \<Rightarrow> step" where
  "validateRequest req =
     (if map_of (query req) ''hub.mode'' = Some ''subscribe''
         \<or> (case map_of (headers req) ''x-hub-signature'' of
               None \<Rightarrow> False
             | Some sg \<Rightarrow> sg \<noteq> [])
      then Next
      else Answer (Response 200 (SendText ''pong'')))"

definition authorizeFacebook :: "env \<Rightarrow> request \<Rightarrow> step" where
  "authorizeFacebook e req =
     (if map_of (query req) ''hub.mode'' = Some ''subscribe'' then
        (let valid = (map_of (query req) ''hub.verify_token'' = fbVerifyToken e)
         in if valid
            then Answer (Response 200 (send_param (map_of (query req) ''hub.challenge'')))
            else Answer (Response 400 (SendText ''Invalid token'')))
      else Next)"

text \<open>
  \<^verbatim>\<open>hmac.update(req.rawBody)\<close> raises when \<^verbatim>\<open>req.rawBody\<close> is
  \<^verbatim>\<open>undefined\<close>.
\<close>

definition verifyHubSignature :: "env \<Rightarrow> request \<Rightarrow> step" where
  "verifyHubSignature e req =
     (case map_of (headers req) ''x-hub-signature'' of
        Some signature \<Rightarrow>
          (case rawBody req of
             None \<Rightarrow> Raise TypeError
           | Some raw \<Rightarrow>
               (let expectedSignature = ''sha1='' @ hmac_sha1_hex e (clientSecret e) raw
                in if expectedSignature \<noteq> signature
                   then Answer (Response 400 (SendText ''Invalid signature''))
                   else Next))
      | None \<Rightarrow> Next)"

section \<open>The handler\<close>

text \<open>
  \<^verbatim>\<open>req.body\<close> comes from the JSON and the urlencoded body parsers, which never leave
  a \<^verbatim>\<open>Buffer\<close> there, so the handler's \<^verbatim>\<open>JSON.parse\<close> branch is not taken.
  \<^verbatim>\<open>body.object == "page"\<close> is the loose equality: a string is compared as it is, an
  array by its elements joined with commas, so an array of one element compares as that
  element; nothing else equals \<^verbatim>\<open>"page"\<close>.
\<close>

fun loosely_page :: "json \<Rightarrow> bool" where
  "loosely_page (JStr s) = (s = ''page'')"
| "loosely_page (JArr [x]) = loosely_page x"
| "loosely_page _ = False"

text \<open>\<^verbatim>\<open>x.forEach(f)\<close> runs on an array and raises on anything else.\<close>

fun for_each :: "json option \<Rightarrow> failure + json list" where
  "for_each (Some (JArr xs)) = Inr xs"
| "for_each _ = Inl TypeError"

text \<open>
  The items of one entry that the handler passes to \<^verbatim>\<open>pushItem\<close>:
  \<^verbatim>\<open>if (entry.changes) ... else if (entry.messaging) ...\<close>.
\<close>

definition entry_items :: "json \<Rightarrow> failure + json list" where
  "entry_items entry =
     (case read_prop entry ''id'' of
        Inl e \<Rightarrow> Inl e
      | Inr facebookId \<Rightarrow>
          if truthy (get entry ''changes'') then for_each (get entry ''changes'')
          else if truthy (get entry ''messaging'') then for_each (get entry ''messaging'')
          else Inr [])"

text \<open>
  The callback \<^verbatim>\<open>async item => { promises.push(pushItem(facebookId, item, entry.time)) }\<close>:
  when \<^verbatim>\<open>pushItem\<close> raises, the \<^verbatim>\<open>async\<close> function turns that into a promise
  nobody holds, and nothing is pushed.
\<close>

definition item_promises :: "env \<Rightarrow> json \<Rightarrow> json \<Rightarrow> attempt list list" where
  "item_promises e entry item =
     (case pushItem e (get entry ''id'') item (get entry ''time'') of
        Inl err \<Rightarrow> []
      | Inr ps \<Rightarrow> [ps])"

text \<open>
  How the synchronous part of the handler ends: it has answered, it waits on
  \<^verbatim>\<open>Promise.all(promises)\<close> (one inner \<^verbatim>\<open>Promise.all\<close> per item), or it raised
  with the deliveries of the earlier entries already started.
\<close>

datatype handled =
    Answered response
  | Awaited "attempt list list"
  | Raised failure "attempt list list"

fun entry_loop :: "env \<Rightarrow> json list \<Rightarrow> attempt list list \<Rightarrow> handled" where
  "entry_loop e [] promises = Awaited promises"
| "entry_loop e (entry # rest) promises =
     (case entry_items entry of
        Inl err \<Rightarrow> Raised err promises
      | Inr items \<Rightarrow>
          entry_loop e rest (promises @ concat (map (item_promises e entry) items)))"

definition subscriptionHandler :: "env \<Rightarrow> request \<Rightarrow> handled" where
  "subscriptionHandler e req =
     (case read_prop (body req) ''object'' of
        Inl err \<Rightarrow> Raised err []
      | Inr ob \<Rightarrow>
          if (case ob of None \<Rightarrow> False | Some v \<Rightarrow> loosely_page v) then
            (case for_each (get (body req) ''entry'') of
               Inl err \<Rightarrow> Raised err []
             | Inr entries \<Rightarrow> entry_loop e entries [])
          else Answered (sendStatus 400))"

text \<open>
  \<^verbatim>\<open>app.use("/", validateRequest, authorizeFacebook, verifyHubSignature, handler)\<close>:
  each middleware runs when the one before it called \<^verbatim>\<open>next()\<close>. The result names
  the stages that ran.
\<close>

datatype stage =
    ValidateRequest
  | AuthorizeFacebook
  | VerifyHubSignature
  | Handler

fun run_stack ::
  "(stage \<times> (request \<Rightarrow> step)) list \<Rightarrow> (request \<Rightarrow> handled) \<Rightarrow> request \<Rightarrow> stage list \<times> handled" where
  "run_stack [] h req = ([Handler], h req)"
| "run_stack ((n, m) # rest) h req =
     (case m req of
        Next \<Rightarrow> (case run_stack rest h req of (ns, r) \<Rightarrow> (n # ns, r))
      | Answer resp \<Rightarrow> ([n], Answered resp)
      | Raise err \<Rightarrow> ([n], Raised err []))"

definition app :: "env \<Rightarrow> request \<Rightarrow> stage list \<times> handled" where
  "app e req =
     run_stack
       [(ValidateRequest, validateRequest),
        (AuthorizeFacebook, authorizeFacebook e),
        (VerifyHubSignature, verifyHubSignature e)]
       (subscriptionHandler e) req"

text \<open>The deliveries started while a request was handled.\<close>

fun started :: "handled \<Rightarrow> attempt list" where
  "started (Answered r) = []"
| "started (Awaited promises) = concat promises"
| "started (Raised err promises) = concat promises"

section \<open>Settling: \<^verbatim>\<open>Promise.all\<close> and the response\<close>

text \<open>
  What can be observed of one request, in the order it happens: a call put on the wire
  (numbered by the position of its delivery among those started), a delivery settled when
  its transport reports, the response.
\<close>

datatype event =
    Call nat call
  | Settle nat settled
  | Respond response

fun is_Respond :: "event \<Rightarrow> bool" where
  "is_Respond (Respond r) = True"
| "is_Respond _ = False"

fun is_Settle :: "event \<Rightarrow> bool" where
  "is_Settle (Settle i s) = True"
| "is_Settle _ = False"

fun is_rejection :: "event \<Rightarrow> bool" where
  "is_rejection (Settle i (Rejected err)) = True"
| "is_rejection _ = False"

fun calls_from :: "nat \<Rightarrow> attempt list \<Rightarrow> event list" where
  "calls_from i [] = []"
| "calls_from i (Issued c t # rest) = Call i c # calls_from (Suc i) rest"
| "calls_from i (Refused err # rest) = calls_from (Suc i) rest"
| "calls_from i (Broken err # rest) = calls_from (Suc i) rest"

text \<open>The deliveries in flight, each with the \<^verbatim>\<open>test\<close> flag of its service.\<close>

fun pending_from :: "nat \<Rightarrow> attempt list \<Rightarrow> (nat \<times> bool) list" where
  "pending_from i [] = []"
| "pending_from i (Issued c t # rest) = (i, t) # pending_from (Suc i) rest"
| "pending_from i (Refused err # rest) = pending_from (Suc i) rest"
| "pending_from i (Broken err # rest) = pending_from (Suc i) rest"

fun first_refused :: "attempt list \<Rightarrow> failure option" where
  "first_refused [] = None"
| "first_refused (Refused err # rest) = Some err"
| "first_refused (_ # rest) = first_refused rest"

fun first_broken :: "attempt list \<Rightarrow> failure option" where
  "first_broken [] = None"
| "first_broken (Broken err # rest) = Some err"
| "first_broken (_ # rest) = first_broken rest"

text \<open>
  The network's part: which delivery's transport reports next, and what. A report for a
  delivery that is not in flight is ignored.
\<close>

type_synonym completion = "nat \<times> (failure + json)"

definition without :: "nat \<Rightarrow> (nat \<times> bool) list \<Rightarrow> (nat \<times> bool) list" where
  "without i pend = filter (\<lambda>p. fst p \<noteq> i) pend"

text \<open>Once the response is out, deliveries still settle and nothing reads the result.\<close>

fun drain :: "(nat \<times> bool) list \<Rightarrow> completion list \<Rightarrow> event list" where
  "drain pend [] = []"
| "drain pend ((i, out) # cs) =
     (case map_of pend i of
        None \<Rightarrow> drain pend cs
      | Some t \<Rightarrow> Settle i (Push_settle t out) # drain (without i pend) cs)"

text \<open>
  \<^verbatim>\<open>Promise.all(promises).then(() => res.sendStatus(200)).catch(err => res.status(500).send(err))\<close>
  while deliveries are in flight: the first rejection rejects \<^verbatim>\<open>Promise.all\<close>, the
  last fulfilment fulfils it.
\<close>

fun await_all :: "(nat \<times> bool) list \<Rightarrow> completion list \<Rightarrow> event list" where
  "await_all pend [] = []"
| "await_all pend ((i, out) # cs) =
     (case map_of pend i of
        None \<Rightarrow> await_all pend cs
      | Some t \<Rightarrow>
          (case Push_settle t out of
             Rejected err \<Rightarrow>
               Settle i (Rejected err) # Respond (Response 500 (SendError err))
                 # drain (without i pend) cs
           | Fulfilled v \<Rightarrow>
               if without i pend = []
               then Settle i (Fulfilled v) # Respond (sendStatus 200) # drain (without i pend) cs
               else Settle i (Fulfilled v) # await_all (without i pend) cs))"

text \<open>
  A delivery rejected while it was started rejects \<^verbatim>\<open>Promise.all\<close> before any
  transport reports: a \<open>Refused\<close> one first, as its rejection is two jobs ahead of a
  \<open>Broken\<close> one, and within each kind the first in order. With nothing to wait for,
  \<^verbatim>\<open>Promise.all\<close> fulfils at once.
\<close>

definition Promise_all :: "attempt list \<Rightarrow> completion list \<Rightarrow> event list" where
  "Promise_all ps cs =
     (case first_refused ps of
        Some err \<Rightarrow> Respond (Response 500 (SendError err)) # drain (pending_from 0 ps) cs
      | None \<Rightarrow>
          (case first_broken ps of
             Some err \<Rightarrow> Respond (Response 500 (SendError err)) # drain (pending_from 0 ps) cs
           | None \<Rightarrow>
               if pending_from 0 ps = [] then [Respond (sendStatus 200)]
               else await_all (pending_from 0 ps) cs))"

text \<open>
  One request from arrival on: the calls of the synchronous part, then the response and
  the settlements. When a stage raises, the framework's error handler answers 500.
\<close>

definition gatekeeper :: "env \<Rightarrow> request \<Rightarrow> completion list \<Rightarrow> event list" where
  "gatekeeper e req cs =
     (case snd (app e req) of
        Answered r \<Rightarrow> [Respond r]
      | Awaited promises \<Rightarrow>
          calls_from 0 (concat promises) @ Promise_all (concat promises) cs
      | Raised err promises \<Rightarrow>
          calls_from 0 (concat promises)
            @ Respond (Response 500 (SendError err))
            # drain (pending_from 0 (concat promises)) cs)"

text \<open>
  ``The response comes only after every delivery has settled'': no settlement follows the
  response.
\<close>

fun settled_before_response :: "event list \<Rightarrow> bool" where
  "settled_before_response [] = True"
| "settled_before_response (Respond r # evs) = (\<not> list_ex is_Settle evs)"
| "settled_before_response (ev # evs) = settled_before_response evs"

text \<open>The envelope a call carries: the body of the POST, the \<^verbatim>\<open>data\<close> of the RPC argument.\<close>

fun envelope_of :: "call \<Rightarrow> json option" where
  "envelope_of (HttpPost u b) = Some b"
| "envelope_of (DdpCall name method (JArr [arg])) = get arg ''data''"
| "envelope_of (DdpCall name method other) = None"

text \<open>
  ``The item re-wrapped as a one-element \<^verbatim>\<open>changes\<close> or \<^verbatim>\<open>messaging\<close> array'':
  the envelope's one entry holds the item in one of the two arrays.
\<close>

fun wraps_item :: "json \<Rightarrow> json \<Rightarrow> bool" where
  "wraps_item (JObj kvs) item =
     (case map_of kvs ''entry'' of
        Some (JArr [entry]) \<Rightarrow>
          get entry ''changes'' = Some (JArr [item]) \<or> get entry ''messaging'' = Some (JArr [item])
      | _ \<Rightarrow> False)"
| "wraps_item _ item = False"

section \<open>The normaliser in the words of the specification\<close>

text \<open>
  ``If the element carries a \<^verbatim>\<open>changes\<close> array, each array member becomes a Change item;
  if it carries a \<^verbatim>\<open>messaging\<close> array, each member becomes a MessagingEvent item'':
  read as two independent conditions, an entry with both arrays yields the members of
  both. This is compared with \<open>entry_items\<close>, which follows the source.
\<close>

fun members :: "json option \<Rightarrow> json list" where
  "members (Some (JArr xs)) = xs"
| "members _ = []"

definition spec_entry_items :: "json \<Rightarrow> json list" where
  "spec_entry_items entry = members (get entry ''changes'') @ members (get entry ''messaging'')"

text \<open>
  An entry as the platform sends it: an object whose \<^verbatim>\<open>changes\<close> and
  \<^verbatim>\<open>messaging\<close>, when present, are arrays.
\<close>

fun array_or_absent :: "json option \<Rightarrow> bool" where
  "array_or_absent None = True"
| "array_or_absent (Some (JArr xs)) = True"
| "array_or_absent _ = False"

fun plain_entry :: "json \<Rightarrow> bool" where
  "plain_entry (JObj kvs) =
     (array_or_absent (map_of kvs ''changes'') \<and> array_or_absent (map_of kvs ''messaging''))"
| "plain_entry _ = False"

section \<open>A configuration and a request to evaluate on\<close>

text \<open>
  The notification of the specification's end-to-end example, signed, and a relay with two
  \<^verbatim>\<open>http\<close> services that list no fields; \<open>t\<close> is the \<^verbatim>\<open>test\<close> flag of the
  first. The digest is a stand-in that joins key and data.
\<close>

definition feed_item :: json where
  "feed_item = JObj [(''field'', JStr ''feed''), (''value'', JObj [])]"

definition feed_envelope :: json where
  "feed_envelope =
     JObj [(''object'', JStr ''page''),
           (''entry'', JArr [JObj [(''id'', JStr ''42''), (''time'', JNum 1000),
                                  (''changes'', JArr [feed_item])]])]"

definition feed_outbound :: json where
  "feed_outbound =
     JObj [(''object'', JStr ''page''),
           (''entry'', JArr [JObj [(''time'', JNum 1000), (''id'', JStr ''42''),
                                  (''changes'', JArr [feed_item])]])]"

definition http_service :: "string \<Rightarrow> bool \<Rightarrow> service" where
  "http_service u t =
     \<lparr>svc_type = Some ''http'', svc_fields = None, svc_test = t, svc_token = None,
       svc_url = u, svc_methodName = []\<rparr>"

definition two_services :: "bool \<Rightarrow> env" where
  "two_services t =
     \<lparr>fbVerifyToken = None, clientSecret = ''s'',
       services = [(''a'', http_service ''http://a'' t), (''b'', http_service ''http://b'' False)],
       ddpClients = None, hmac_sha1_hex = (\<lambda>key data. key @ data)\<rparr>"

definition signed_feed_request :: request where
  "signed_feed_request =
     \<lparr>query = [], headers = [(''x-hub-signature'', ''sha1=sraw'')], rawBody = Some ''raw'',
       body = feed_envelope\<rparr>"

section \<open>Basic facts\<close>

lemma truthy_not_null: "truthy (get item k) \<Longrightarrow> item \<noteq> JNull"
  by (cases item) auto

text \<open>\<^verbatim>\<open>pushItem\<close> raises only on a \<^verbatim>\<open>null\<close> item.\<close>

lemma pushItem_raises_only_on_null:
  assumes "pushItem_loop svcs clients fid item tm = Inl err"
  shows "item = JNull \<and> err = TypeError"
  using assms
proof (induction svcs)
  case Nil
  then show ?case by simp
next
  case (Cons p svcs)
  obtain name svc where p: "p = (name, svc)" by (cases p)
  have here: "item = JNull \<and> e' = TypeError" if "subscribed svc item = Inl e'" for e'
    using that
    by (auto simp: subscribed_def validateFields_def read_prop_def
          split: option.splits if_splits)
  from Cons p here show ?case by (auto split: sum.splits)
qed

lemma app_unfold:
  "app e req =
     (case validateRequest req of
        Next \<Rightarrow>
          (case authorizeFacebook e req of
             Next \<Rightarrow>
               (case verifyHubSignature e req of
                  Next \<Rightarrow>
                    ([ValidateRequest, AuthorizeFacebook, VerifyHubSignature, Handler],
                     subscriptionHandler e req)
                | Answer r \<Rightarrow>
                    ([ValidateRequest, AuthorizeFacebook, VerifyHubSignature], Answered r)
                | Raise err \<Rightarrow>
                    ([ValidateRequest, AuthorizeFacebook, VerifyHubSignature], Raised err []))
           | Answer r \<Rightarrow> ([ValidateRequest, AuthorizeFacebook], Answered r)
           | Raise err \<Rightarrow> ([ValidateRequest, AuthorizeFacebook], Raised err []))
      | Answer r \<Rightarrow> ([ValidateRequest], Answered r)
      | Raise err \<Rightarrow> ([ValidateRequest], Raised err []))"
  by (simp add: app_def split: step.splits)

section \<open>The subscription filter\<close>

text \<open>
  C5. The filter of \<^verbatim>\<open>pushItem\<close> on a Change item. \<^verbatim>\<open>validateFields\<close> takes an
  item for a change when \<^verbatim>\<open>item.field\<close> is truthy. For such an item and any service,
  the filter matches exactly when the service has no field list, or an empty one, or the
  item's field is a string that is a member of the list.
\<close>

theorem change_filter_literal_member:
  assumes "truthy (get item ''field'')"
  shows "subscribed svc item =
           Inr (svc_fields svc = None \<or> svc_fields svc = Some []
                \<or> (\<exists>s fs. get item ''field'' = Some (JStr s)
                      \<and> svc_fields svc = Some fs \<and> s \<in> set fs))"
proof -
  have nn: "item \<noteq> JNull" using assms by (rule truthy_not_null)
  have ix: "index_of_found fs (get item ''field'')
              = (\<exists>s. get item ''field'' = Some (JStr s) \<and> s \<in> set fs)" for fs
    by (cases "(fs, get item ''field'')" rule: index_of_found.cases) auto
  show ?thesis
  proof (cases "svc_fields svc")
    case None
    then show ?thesis by (simp add: subscribed_def)
  next
    case (Some fs)
    then show ?thesis
      using assms nn ix [of fs]
      by (simp add: subscribed_def validateFields_def read_prop_def)
  qed
qed

theorem change_filter_literal_member_witness:
  "truthy (get (JObj [(''field'', JStr ''feed''), (''value'', JObj [])]) ''field'')
   \<and> subscribed \<lparr>svc_type = Some ''http'', svc_fields = Some [''feed''], svc_test = False,
        svc_token = None, svc_url = ''http://svc'', svc_methodName = []\<rparr>
       (JObj [(''field'', JStr ''feed''), (''value'', JObj [])]) = Inr True
   \<and> subscribed \<lparr>svc_type = Some ''http'', svc_fields = Some [''conversations''], svc_test = False,
        svc_token = None, svc_url = ''http://svc'', svc_methodName = []\<rparr>
       (JObj [(''field'', JStr ''feed''), (''value'', JObj [])]) = Inr False"
  using change_filter_literal_member
      [of "JObj [(''field'', JStr ''feed''), (''value'', JObj [])]"
          "\<lparr>svc_type = Some ''http'', svc_fields = Some [''feed''], svc_test = False,
            svc_token = None, svc_url = ''http://svc'', svc_methodName = []\<rparr>"]
    change_filter_literal_member
      [of "JObj [(''field'', JStr ''feed''), (''value'', JObj [])]"
          "\<lparr>svc_type = Some ''http'', svc_fields = Some [''conversations''], svc_test = False,
            svc_token = None, svc_url = ''http://svc'', svc_methodName = []\<rparr>"]
  by simp

text \<open>
  C4. The filter on a MessagingEvent item. \<^verbatim>\<open>validateFields\<close> takes an item for a
  messaging event when \<^verbatim>\<open>item.field\<close> is not truthy and \<^verbatim>\<open>item.sender\<close> is.
  For such an item and a service with a non-empty field list, the filter matches exactly
  when some entry of the list has a translation in the table that is a key of the item.
  So a service subscribed to \<^verbatim>\<open>["messages"]\<close> matches exactly the items that have a
  \<^verbatim>\<open>message\<close> key.
\<close>

theorem messaging_filter_translated_key:
  assumes "\<not> truthy (get item ''field'')" and "truthy (get item ''sender'')"
    and "svc_fields svc = Some fs" and "fs \<noteq> []"
  shows "subscribed svc item =
           Inr (\<exists>f \<in> set fs. \<exists>k. MESSAGE_FIELD_MAP f = Some k \<and> k \<in> set (object_keys item))
         \<and> (fs = [''messages''] \<longrightarrow>
              subscribed svc item = Inr (''message'' \<in> set (object_keys item)))"
proof -
  have nn: "item \<noteq> JNull" using assms(2) by (rule truthy_not_null)
  have ex: "list_ex (\<lambda>key. Some key \<in> set (map MESSAGE_FIELD_MAP fs)) (object_keys item)
            = (\<exists>f \<in> set fs. \<exists>k. MESSAGE_FIELD_MAP f = Some k \<and> k \<in> set (object_keys item))"
    by (force simp: list_ex_iff image_iff)
  have main: "subscribed svc item =
           Inr (\<exists>f \<in> set fs. \<exists>k. MESSAGE_FIELD_MAP f = Some k \<and> k \<in> set (object_keys item))"
    using assms nn ex by (simp add: subscribed_def validateFields_def read_prop_def)
  have "MESSAGE_FIELD_MAP ''messages'' = Some ''message''"
    by (simp add: MESSAGE_FIELD_MAP_def)
  then show ?thesis using main by auto
qed

theorem messaging_filter_translated_key_witness:
  "subscribed \<lparr>svc_type = Some ''http'', svc_fields = Some [''messages''], svc_test = False,
        svc_token = None, svc_url = ''http://svc'', svc_methodName = []\<rparr>
       (JObj [(''sender'', JObj [(''id'', JStr ''7'')]), (''message'', JObj [(''text'', JStr ''hi'')])])
     = Inr True
   \<and> subscribed \<lparr>svc_type = Some ''http'', svc_fields = Some [''messages''], svc_test = False,
        svc_token = None, svc_url = ''http://svc'', svc_methodName = []\<rparr>
       (JObj [(''sender'', JObj [(''id'', JStr ''7'')]), (''delivery'', JObj [(''seq'', JNum 1)])])
     = Inr False"
  using messaging_filter_translated_key
      [of "JObj [(''sender'', JObj [(''id'', JStr ''7'')]), (''message'', JObj [(''text'', JStr ''hi'')])]"
          "\<lparr>svc_type = Some ''http'', svc_fields = Some [''messages''], svc_test = False,
            svc_token = None, svc_url = ''http://svc'', svc_methodName = []\<rparr>" "[''messages'']"]
    messaging_filter_translated_key
      [of "JObj [(''sender'', JObj [(''id'', JStr ''7'')]), (''delivery'', JObj [(''seq'', JNum 1)])]"
          "\<lparr>svc_type = Some ''http'', svc_fields = Some [''messages''], svc_test = False,
            svc_token = None, svc_url = ''http://svc'', svc_methodName = []\<rparr>" "[''messages'']"]
  by (simp add: MESSAGE_FIELD_MAP_def)

section \<open>The middlewares\<close>

text \<open>
  C9. The handshake. On a request whose \<^verbatim>\<open>hub.mode\<close> is \<^verbatim>\<open>subscribe\<close>,
  \<^verbatim>\<open>authorizeFacebook\<close> answers 200 with the value of \<^verbatim>\<open>hub.challenge\<close> as it
  came when \<^verbatim>\<open>hub.verify_token\<close> equals the configured token, and 400 with
  \<^verbatim>\<open>Invalid token\<close> otherwise; that is also the answer of the whole stack, and the
  signature verifier and the handler do not run. On any other request it calls
  \<^verbatim>\<open>next()\<close>.
\<close>

theorem handshake_echoes_challenge:
  "(map_of (query req) ''hub.mode'' = Some ''subscribe'' \<longrightarrow>
      authorizeFacebook e req =
        (if map_of (query req) ''hub.verify_token'' = fbVerifyToken e
         then Answer (Response 200 (send_param (map_of (query req) ''hub.challenge'')))
         else Answer (Response 400 (SendText ''Invalid token'')))
      \<and> send_param (Some c) = SendText c
      \<and> app e req = 
          ([ValidateRequest, AuthorizeFacebook],
           Answered
             (if map_of (query req) ''hub.verify_token'' = fbVerifyToken e
              then Response 200 (send_param (map_of (query req) ''hub.challenge''))
              else Response 400 (SendText ''Invalid token''))))
   \<and> (map_of (query req) ''hub.mode'' \<noteq> Some ''subscribe'' \<longrightarrow> authorizeFacebook e req = Next)"
proof -
  have other: "authorizeFacebook e req = Next"
    if "map_of (query req) ''hub.mode'' \<noteq> Some ''subscribe''"
    using that by (simp add: authorizeFacebook_def)
  have answer: "authorizeFacebook e req =
        (if map_of (query req) ''hub.verify_token'' = fbVerifyToken e
         then Answer (Response 200 (send_param (map_of (query req) ''hub.challenge'')))
         else Answer (Response 400 (SendText ''Invalid token'')))"
    and admitted: "validateRequest req = Next"
    if "map_of (query req) ''hub.mode'' = Some ''subscribe''"
    using that by (simp_all add: authorizeFacebook_def validateRequest_def)
  have echo: "send_param (Some c) = SendText c"
    by (simp add: send_param_def)
  have whole: "app e req =
          ([ValidateRequest, AuthorizeFacebook],
           Answered
             (if map_of (query req) ''hub.verify_token'' = fbVerifyToken e
              then Response 200 (send_param (map_of (query req) ''hub.challenge''))
              else Response 400 (SendText ''Invalid token'')))"
    if "map_of (query req) ''hub.mode'' = Some ''subscribe''"
    using answer [OF that] admitted [OF that] by (simp add: app_unfold)
  from other answer echo whole show ?thesis by simp
qed

theorem handshake_echoes_challenge_witness:
  "authorizeFacebook
     \<lparr>fbVerifyToken = Some ''secret-token'', clientSecret = ''s'', services = [],
       ddpClients = None, hmac_sha1_hex = (\<lambda>key data. key @ data)\<rparr>
     \<lparr>query = [(''hub.mode'', ''subscribe''), (''hub.verify_token'', ''secret-token''),
                (''hub.challenge'', ''1158201444'')],
       headers = [], rawBody = None, body = JObj []\<rparr>
     = Answer (Response 200 (SendText ''1158201444''))
   \<and> authorizeFacebook
     \<lparr>fbVerifyToken = Some ''secret-token'', clientSecret = ''s'', services = [],
       ddpClients = None, hmac_sha1_hex = (\<lambda>key data. key @ data)\<rparr>
     \<lparr>query = [(''hub.mode'', ''subscribe''), (''hub.verify_token'', ''guess''),
                (''hub.challenge'', ''1158201444'')],
       headers = [], rawBody = None, body = JObj []\<rparr>
     = Answer (Response 400 (SendText ''Invalid token''))
   \<and> authorizeFacebook
     \<lparr>fbVerifyToken = Some ''secret-token'', clientSecret = ''s'', services = [],
       ddpClients = None, hmac_sha1_hex = (\<lambda>key data. key @ data)\<rparr>
     \<lparr>query = [], headers = [(''x-hub-signature'', ''sha1=s{}'')], rawBody = Some ''{}'',
       body = JObj []\<rparr>
     = Next"
  using handshake_echoes_challenge
      [of "\<lparr>query = [(''hub.mode'', ''subscribe''), (''hub.verify_token'', ''secret-token''),
                (''hub.challenge'', ''1158201444'')],
            headers = [], rawBody = None, body = JObj []\<rparr>"
          "\<lparr>fbVerifyToken = Some ''secret-token'', clientSecret = ''s'', services = [],
            ddpClients = None, hmac_sha1_hex = (\<lambda>key data. key @ data)\<rparr>"]
    handshake_echoes_challenge
      [of "\<lparr>query = [(''hub.mode'', ''subscribe''), (''hub.verify_token'', ''guess''),
                (''hub.challenge'', ''1158201444'')],
            headers = [], rawBody = None, body = JObj []\<rparr>"
          "\<lparr>fbVerifyToken = Some ''secret-token'', clientSecret = ''s'', services = [],
            ddpClients = None, hmac_sha1_hex = (\<lambda>key data. key @ data)\<rparr>"]
    handshake_echoes_challenge
      [of "\<lparr>query = [], headers = [(''x-hub-signature'', ''sha1=s{}'')], rawBody = Some ''{}'',
            body = JObj []\<rparr>"
          "\<lparr>fbVerifyToken = Some ''secret-token'', clientSecret = ''s'', services = [],
            ddpClients = None, hmac_sha1_hex = (\<lambda>key data. key @ data)\<rparr>"]
  by (simp add: send_param_def)

text \<open>
  C10. A request with neither \<^verbatim>\<open>hub.mode=subscribe\<close> nor an
  \<^verbatim>\<open>x-hub-signature\<close> header is answered 200 \<^verbatim>\<open>pong\<close> by
  \<^verbatim>\<open>validateRequest\<close>, which is the only stage that runs: no delivery is started, and
  the response is all that happens.
\<close>

theorem probe_gets_pong:
  assumes "map_of (query req) ''hub.mode'' \<noteq> Some ''subscribe''"
    and "map_of (headers req) ''x-hub-signature'' = None"
  shows "validateRequest req = Answer (Response 200 (SendText ''pong''))
         \<and> app e req = ([ValidateRequest], Answered (Response 200 (SendText ''pong'')))
         \<and> started (snd (app e req)) = []
         \<and> gatekeeper e req cs = [Respond (Response 200 (SendText ''pong''))]"
  using assms by (simp add: app_unfold validateRequest_def gatekeeper_def)

theorem probe_gets_pong_witness:
  "map_of (query \<lparr>query = [(''q'', ''1'')], headers = [(''user-agent'', ''scanner'')],
             rawBody = Some ''{}'',
             body = JObj [(''object'', JStr ''page''), (''entry'', JArr [])]\<rparr>) ''hub.mode''
     \<noteq> Some ''subscribe''
   \<and> gatekeeper
       \<lparr>fbVerifyToken = Some ''secret-token'', clientSecret = ''s'',
         services = [(''svc'', \<lparr>svc_type = Some ''http'', svc_fields = None, svc_test = False,
                        svc_token = None, svc_url = ''http://svc'', svc_methodName = []\<rparr>)],
         ddpClients = None, hmac_sha1_hex = (\<lambda>key data. key @ data)\<rparr>
       \<lparr>query = [(''q'', ''1'')], headers = [(''user-agent'', ''scanner'')],
         rawBody = Some ''{}'',
         body = JObj [(''object'', JStr ''page''), (''entry'', JArr [])]\<rparr>
       []
     = [Respond (Response 200 (SendText ''pong''))]"
  using probe_gets_pong
      [of "\<lparr>query = [(''q'', ''1'')], headers = [(''user-agent'', ''scanner'')],
            rawBody = Some ''{}'',
            body = JObj [(''object'', JStr ''page''), (''entry'', JArr [])]\<rparr>"
          "\<lparr>fbVerifyToken = Some ''secret-token'', clientSecret = ''s'',
            services = [(''svc'', \<lparr>svc_type = Some ''http'', svc_fields = None, svc_test = False,
                           svc_token = None, svc_url = ''http://svc'', svc_methodName = []\<rparr>)],
            ddpClients = None, hmac_sha1_hex = (\<lambda>key data. key @ data)\<rparr>"
          "[]"]
  by simp



text \<open>
  When the header is there and no raw body was captured (the body was empty, or not JSON),
  the verifier neither passes the request on nor answers 400: the digest update raises,
  and the framework answers 500 with nothing delivered.
\<close>

lemma signature_without_raw_body:
  assumes "map_of (headers req) ''x-hub-signature'' = Some h" and "rawBody req = None"
  shows "verifyHubSignature e req = Raise TypeError"
  using assms by (simp add: verifyHubSignature_def)

section \<open>The normaliser\<close>

lemma entry_items_plain:
  assumes "plain_entry entry"
  shows "entry_items entry =
           Inr (case get entry ''changes'' of
                  Some (JArr xs) \<Rightarrow> xs
                | _ \<Rightarrow> members (get entry ''messaging''))"
proof -
  from assms obtain kvs where e: "entry = JObj kvs"
    by (cases entry) auto
  from assms e have c: "array_or_absent (map_of kvs ''changes'')"
    and m: "array_or_absent (map_of kvs ''messaging'')" by auto
  show ?thesis
  proof (cases "(map_of kvs ''changes'')" rule: array_or_absent.cases)
    case 1
    then show ?thesis
      using m e
      by (cases "(map_of kvs ''messaging'')" rule: array_or_absent.cases)
         (auto simp: entry_items_def read_prop_def)
  next
    case (2 xs)
    then show ?thesis using e by (simp add: entry_items_def read_prop_def)
  qed (use c in auto)
qed

lemma entry_loop_plain:
  assumes "\<forall>entry \<in> set es. plain_entry entry"
  shows "entry_loop e es acc =
           Awaited (acc @ concat (map (\<lambda>entry.
              concat (map (item_promises e entry)
                (case get entry ''changes'' of
                   Some (JArr xs) \<Rightarrow> xs
                 | _ \<Rightarrow> members (get entry ''messaging'')))) es))"
  using assms
proof (induction es arbitrary: acc)
  case Nil
  then show ?case by simp
next
  case (Cons entry es)
  then have "plain_entry entry" and rest: "\<forall>x \<in> set es. plain_entry x" by auto
  from entry_items_plain [OF this(1)] Cons.IH [OF rest]
  show ?case by simp
qed

text \<open>
  C6, as the code has it. The handler reads an entry's \<^verbatim>\<open>messaging\<close> only when the
  entry has no \<^verbatim>\<open>changes\<close>: for a page envelope whose entries are objects with
  \<^verbatim>\<open>changes\<close> and \<^verbatim>\<open>messaging\<close> arrays or none, the promises the handler waits on
  are, entry by entry, one \<^verbatim>\<open>pushItem\<close> per member of \<^verbatim>\<open>changes\<close> when the
  entry has that array, else one per member of \<^verbatim>\<open>messaging\<close>, each called with the
  entry's \<^verbatim>\<open>id\<close> and \<^verbatim>\<open>time\<close>; an entry with neither array adds nothing.
\<close>

theorem entry_changes_else_messaging:
  assumes "get (body req) ''object'' = Some (JStr ''page'')"
    and "get (body req) ''entry'' = Some (JArr es)"
    and "\<forall>entry \<in> set es. plain_entry entry"
  shows "subscriptionHandler e req =
           Awaited (concat (map (\<lambda>entry.
              concat (map (\<lambda>item.
                  case pushItem e (get entry ''id'') item (get entry ''time'') of
                    Inl err \<Rightarrow> []
                  | Inr ps \<Rightarrow> [ps])
                (case get entry ''changes'' of
                   Some (JArr xs) \<Rightarrow> xs
                 | _ \<Rightarrow> members (get entry ''messaging'')))) es))"
proof -
  have nn: "body req \<noteq> JNull" using assms(1) by (cases "body req") auto
  have ip: "item_promises e entry = (\<lambda>item.
                  case pushItem e (get entry ''id'') item (get entry ''time'') of
                    Inl err \<Rightarrow> []
                  | Inr ps \<Rightarrow> [ps])" for entry
    by (rule ext) (simp add: item_promises_def)
  show ?thesis
    using assms(1,2) nn entry_loop_plain [OF assms(3), of e "[]"]
    by (simp add: subscriptionHandler_def read_prop_def ip)
qed

theorem entry_changes_else_messaging_witness:
  "subscriptionHandler
     \<lparr>fbVerifyToken = None, clientSecret = ''s'',
       services = [(''svc'', \<lparr>svc_type = Some ''http'', svc_fields = None, svc_test = False,
                      svc_token = None, svc_url = ''http://svc'', svc_methodName = []\<rparr>)],
       ddpClients = None, hmac_sha1_hex = (\<lambda>key data. key @ data)\<rparr>
     \<lparr>query = [], headers = [], rawBody = Some ''{}'',
       body = JObj [(''object'', JStr ''page''),
                    (''entry'', JArr
                       [JObj [(''id'', JStr ''42''), (''time'', JNum 1000),
                              (''messaging'', JArr [JObj [(''sender'', JObj [(''id'', JStr ''7'')]),
                                                        (''message'', JObj [])]])],
                        JObj [(''id'', JStr ''43''), (''time'', JNum 1001)]])]\<rparr>
   = Awaited
       [[Issued (HttpPost ''http://svc''
           (JObj [(''object'', JStr ''page''),
                  (''entry'', JArr
                     [JObj [(''time'', JNum 1000), (''id'', JStr ''42''),
                            (''messaging'', JArr [JObj [(''sender'', JObj [(''id'', JStr ''7'')]),
                                                      (''message'', JObj [])]])]])]))
          False]]"
  using entry_changes_else_messaging
      [of "\<lparr>query = [], headers = [], rawBody = Some ''{}'',
            body = JObj [(''object'', JStr ''page''),
                    (''entry'', JArr
                       [JObj [(''id'', JStr ''42''), (''time'', JNum 1000),
                              (''messaging'', JArr [JObj [(''sender'', JObj [(''id'', JStr ''7'')]),
                                                        (''message'', JObj [])]])],
                        JObj [(''id'', JStr ''43''), (''time'', JNum 1001)]])]\<rparr>"
          "[JObj [(''id'', JStr ''42''), (''time'', JNum 1000),
                  (''messaging'', JArr [JObj [(''sender'', JObj [(''id'', JStr ''7'')]),
                                            (''message'', JObj [])]])],
            JObj [(''id'', JStr ''43''), (''time'', JNum 1001)]]"
          "\<lparr>fbVerifyToken = None, clientSecret = ''s'',
            services = [(''svc'', \<lparr>svc_type = Some ''http'', svc_fields = None, svc_test = False,
                      svc_token = None, svc_url = ''http://svc'', svc_methodName = []\<rparr>)],
            ddpClients = None, hmac_sha1_hex = (\<lambda>key data. key @ data)\<rparr>"]
  by (simp add: pushItem_def subscribed_def start_push_def Push_http_def getBody_def
        read_prop_def opt_pair_def)

text \<open>
  C6 as stated fails on an entry that carries both arrays: by the words of the
  specification its items are the change and the messaging event, and the handler passes
  only the change to \<^verbatim>\<open>pushItem\<close>.
\<close>

theorem entry_with_both_arrays_counterexample:
  "spec_entry_items
     (JObj [(''id'', JStr ''42''), (''time'', JNum 1000),
            (''changes'', JArr [JObj [(''field'', JStr ''feed''), (''value'', JObj [])]]),
            (''messaging'', JArr [JObj [(''sender'', JObj [(''id'', JStr ''7'')]),
                                      (''message'', JObj [])]])])
     = [JObj [(''field'', JStr ''feed''), (''value'', JObj [])],
        JObj [(''sender'', JObj [(''id'', JStr ''7'')]), (''message'', JObj [])]]
   \<and> entry_items
     (JObj [(''id'', JStr ''42''), (''time'', JNum 1000),
            (''changes'', JArr [JObj [(''field'', JStr ''feed''), (''value'', JObj [])]]),
            (''messaging'', JArr [JObj [(''sender'', JObj [(''id'', JStr ''7'')]),
                                      (''message'', JObj [])]])])
     = Inr [JObj [(''field'', JStr ''feed''), (''value'', JObj [])]]"
  by (simp add: spec_entry_items_def entry_items_def read_prop_def)

section \<open>The outbound envelope\<close>

lemma getBody_envelope:
  assumes "getBody fid tm item = Inr b"
  shows "\<exists>entry. b = JObj [(''object'', JStr ''page''), (''entry'', JArr [JObj entry])]
           \<and> map_of entry ''id'' = fid \<and> map_of entry ''time'' = tm
           \<and> map_of entry ''changes''
                = (if truthy (get item ''field'') then Some (JArr [item]) else None)
           \<and> map_of entry ''messaging''
                = (if truthy (get item ''sender'') then Some (JArr [item]) else None)
           \<and> set (map fst entry) \<subseteq> {''time'', ''id'', ''changes'', ''messaging''}"
proof -
  from assms have nn: "item \<noteq> JNull"
    by (auto simp: getBody_def read_prop_def split: if_splits)
  let ?entry = "opt_pair ''time'' tm @ opt_pair ''id'' fid
                 @ (if truthy (get item ''field'') then [(''changes'', JArr [item])] else [])
                 @ (if truthy (get item ''sender'') then [(''messaging'', JArr [item])] else [])"
  have b: "b = JObj [(''object'', JStr ''page''), (''entry'', JArr [JObj ?entry])]"
    using assms nn by (simp add: getBody_def read_prop_def)
  have "map_of ?entry ''id'' = fid" "map_of ?entry ''time'' = tm"
    "map_of ?entry ''changes''
       = (if truthy (get item ''field'') then Some (JArr [item]) else None)"
    "map_of ?entry ''messaging''
       = (if truthy (get item ''sender'') then Some (JArr [item]) else None)"
    "set (map fst ?entry) \<subseteq> {''time'', ''id'', ''changes'', ''messaging''}"
    by (auto simp: opt_pair_def split: option.splits)
  with b show ?thesis by blast
qed

lemma start_push_issued:
  assumes "start_push clients name svc fid item tm = Issued c t"
  shows "\<exists>b. getBody fid tm item = Inr b \<and> envelope_of c = Some b \<and> t = svc_test svc"
proof -
  have http: "Push_http svc fid item tm = Issued c t \<Longrightarrow> ?thesis"
    by (auto simp: Push_http_def Let_def split: sum.splits)
  have ddp: "Push_ddp clients name svc fid item tm = Issued c t \<Longrightarrow> ?thesis"
    by (auto simp: Push_ddp_def opt_pair_def split: option.splits if_splits sum.splits)
  from assms http ddp show ?thesis
    by (auto simp: start_push_def split: option.splits if_splits)
qed

text \<open>
  A delivery started for a \<^verbatim>\<open>null\<close> item puts nothing on the wire, so the promises
  \<^verbatim>\<open>pushItem\<close> drops when it raises are rejected ones.
\<close>

lemma null_item_sends_nothing: "start_push clients name svc fid JNull tm \<noteq> Issued c t"
  using start_push_issued [of clients name svc fid JNull tm c t]
  by (auto simp: getBody_def read_prop_def)

lemma pushItem_loop_member:
  assumes "pushItem_loop svcs clients fid item tm = Inr ps" and "a \<in> set ps"
  shows "\<exists>name svc. (name, svc) \<in> set svcs \<and> subscribed svc item = Inr True
           \<and> a = start_push clients name svc fid item tm"
  using assms
proof (induction svcs arbitrary: ps)
  case Nil
  then show ?case by simp
next
  case (Cons p svcs)
  obtain name svc where p: "p = (name, svc)" by (cases p)
  from Cons.prems(1) p obtain m rest where
    m: "subscribed svc item = Inr m"
    and rest: "pushItem_loop svcs clients fid item tm = Inr rest"
    and ps: "ps = (if m then [start_push clients name svc fid item tm] else []) @ rest"
    by (auto split: sum.splits)
  show ?case
  proof (cases "a \<in> set rest")
    case True
    from Cons.IH [OF rest True] show ?thesis by auto
  next
    case False
    with Cons.prems(2) ps have "m" and "a = start_push clients name svc fid item tm"
      by (auto split: if_splits)
    with m p show ?thesis by auto
  qed
qed

text \<open>
  C7, as the code has it. Every call \<^verbatim>\<open>pushItem\<close> issues for an item carries an
  envelope \<^verbatim>\<open>{object: "page", entry: [e]}\<close> with one entry \<open>e\<close> that has the
  \<^verbatim>\<open>id\<close> and \<^verbatim>\<open>time\<close> it was called with and no key beyond \<^verbatim>\<open>time\<close>,
  \<^verbatim>\<open>id\<close>, \<^verbatim>\<open>changes\<close> and \<^verbatim>\<open>messaging\<close>. The item is wrapped by its own keys:
  \<^verbatim>\<open>changes: [item]\<close> is there exactly when \<^verbatim>\<open>item.field\<close> is truthy and
  \<^verbatim>\<open>messaging: [item]\<close> exactly when \<^verbatim>\<open>item.sender\<close> is truthy, so an item with
  neither key is left out of the envelope sent for it. The end-to-end example of the
  specification, one \<^verbatim>\<open>http\<close> service without token subscribed to \<^verbatim>\<open>["feed"]\<close>,
  starts exactly one POST, to the service's URL, with the stated envelope.
\<close>

theorem outbound_envelope_single_item:
  assumes "pushItem e fid item tm = Inr ps" and "Issued c t \<in> set ps"
  shows "(\<exists>entry. envelope_of c
                    = Some (JObj [(''object'', JStr ''page''), (''entry'', JArr [JObj entry])])
           \<and> map_of entry ''id'' = fid \<and> map_of entry ''time'' = tm
           \<and> map_of entry ''changes''
                = (if truthy (get item ''field'') then Some (JArr [item]) else None)
           \<and> map_of entry ''messaging''
                = (if truthy (get item ''sender'') then Some (JArr [item]) else None)
           \<and> set (map fst entry) \<subseteq> {''time'', ''id'', ''changes'', ''messaging''})
         \<and> calls_from 0 (started (subscriptionHandler
              \<lparr>fbVerifyToken = vt, clientSecret = sec,
                services = [(name, \<lparr>svc_type = Some ''http'', svc_fields = Some [''feed''],
                               svc_test = tst, svc_token = None, svc_url = u,
                               svc_methodName = mn\<rparr>)],
                ddpClients = cl, hmac_sha1_hex = hm\<rparr>
              \<lparr>query = q, headers = hs, rawBody = rb,
                body = JObj [(''object'', JStr ''page''),
                             (''entry'', JArr
                                [JObj [(''id'', JStr ''42''), (''time'', JNum 1000),
                                       (''changes'', JArr [JObj [(''field'', JStr ''feed''),
                                                               (''value'', JObj [])]])]])]\<rparr>))
           = [Call 0 (HttpPost u
                (JObj [(''object'', JStr ''page''),
                       (''entry'', JArr
                          [JObj [(''time'', JNum 1000), (''id'', JStr ''42''),
                                 (''changes'', JArr [JObj [(''field'', JStr ''feed''),
                                                         (''value'', JObj [])]])]])]))]"
proof -
  from assms have "pushItem_loop (services e) (ddpClients e) fid item tm = Inr ps"
    by (simp add: pushItem_def)
  from pushItem_loop_member [OF this assms(2)] obtain name' svc where
    "Issued c t = start_push (ddpClients e) name' svc fid item tm" by blast
  from start_push_issued [OF this [symmetric]] obtain b where
    "getBody fid tm item = Inr b" and "envelope_of c = Some b" by blast
  with getBody_envelope [of fid tm item b] have first: "\<exists>entry. envelope_of c
                    = Some (JObj [(''object'', JStr ''page''), (''entry'', JArr [JObj entry])])
           \<and> map_of entry ''id'' = fid \<and> map_of entry ''time'' = tm
           \<and> map_of entry ''changes''
                = (if truthy (get item ''field'') then Some (JArr [item]) else None)
           \<and> map_of entry ''messaging''
                = (if truthy (get item ''sender'') then Some (JArr [item]) else None)
           \<and> set (map fst entry) \<subseteq> {''time'', ''id'', ''changes'', ''messaging''}"
    by simp
  have second: "calls_from 0 (started (subscriptionHandler
              \<lparr>fbVerifyToken = vt, clientSecret = sec,
                services = [(name, \<lparr>svc_type = Some ''http'', svc_fields = Some [''feed''],
                               svc_test = tst, svc_token = None, svc_url = u,
                               svc_methodName = mn\<rparr>)],
                ddpClients = cl, hmac_sha1_hex = hm\<rparr>
              \<lparr>query = q, headers = hs, rawBody = rb,
                body = JObj [(''object'', JStr ''page''),
                             (''entry'', JArr
                                [JObj [(''id'', JStr ''42''), (''time'', JNum 1000),
                                       (''changes'', JArr [JObj [(''field'', JStr ''feed''),
                                                               (''value'', JObj [])]])]])]\<rparr>))
           = [Call 0 (HttpPost u
                (JObj [(''object'', JStr ''page''),
                       (''entry'', JArr
                          [JObj [(''time'', JNum 1000), (''id'', JStr ''42''),
                                 (''changes'', JArr [JObj [(''field'', JStr ''feed''),
                                                         (''value'', JObj [])]])]])]))]"
    by (simp add: subscriptionHandler_def read_prop_def entry_items_def item_promises_def
          pushItem_def subscribed_def validateFields_def start_push_def Push_http_def
          getBody_def opt_pair_def)
  from first second show ?thesis by (rule conjI)
qed

theorem outbound_envelope_single_item_witness:
  "pushItem
     \<lparr>fbVerifyToken = None, clientSecret = ''s'',
       services = [(''bot'', \<lparr>svc_type = Some ''ddp'', svc_fields = Some [''messages''],
                      svc_test = False, svc_token = Some ''k'', svc_url = [],
                      svc_methodName = ''webhookUpdate''\<rparr>)],
       ddpClients = Some [''bot''], hmac_sha1_hex = (\<lambda>key data. key @ data)\<rparr>
     (Some (JStr ''42''))
     (JObj [(''sender'', JObj [(''id'', JStr ''7'')]), (''message'', JObj [])])
     (Some (JNum 1000))
   = Inr [Issued (DdpCall ''bot'' ''webhookUpdate''
            (JArr [JObj [(''token'', JStr ''k''), (''facebookAccountId'', JStr ''42''),
               (''data'', JObj [(''object'', JStr ''page''),
                  (''entry'', JArr
                     [JObj [(''time'', JNum 1000), (''id'', JStr ''42''),
                            (''messaging'',
                             JArr [JObj [(''sender'', JObj [(''id'', JStr ''7'')]),
                                         (''message'', JObj [])]])]])])]]))
          False]
   \<and> (\<exists>entry. envelope_of (DdpCall ''bot'' ''webhookUpdate''
            (JArr [JObj [(''token'', JStr ''k''), (''facebookAccountId'', JStr ''42''),
               (''data'', JObj [(''object'', JStr ''page''),
                  (''entry'', JArr
                     [JObj [(''time'', JNum 1000), (''id'', JStr ''42''),
                            (''messaging'',
                             JArr [JObj [(''sender'', JObj [(''id'', JStr ''7'')]),
                                         (''message'', JObj [])]])]])])]]))
          = Some (JObj [(''object'', JStr ''page''), (''entry'', JArr [JObj entry])])
        \<and> map_of entry ''id'' = Some (JStr ''42'')
        \<and> map_of entry ''messaging''
             = Some (JArr [JObj [(''sender'', JObj [(''id'', JStr ''7'')]), (''message'', JObj [])]])
        \<and> map_of entry ''changes'' = None)"
  using outbound_envelope_single_item
      [where e = "\<lparr>fbVerifyToken = None, clientSecret = ''s'',
                   services = [(''bot'', \<lparr>svc_type = Some ''ddp'', svc_fields = Some [''messages''],
                      svc_test = False, svc_token = Some ''k'', svc_url = [],
                      svc_methodName = ''webhookUpdate''\<rparr>)],
                   ddpClients = Some [''bot''], hmac_sha1_hex = (\<lambda>key data. key @ data)\<rparr>"
         and fid = "Some (JStr ''42'')"
         and item = "JObj [(''sender'', JObj [(''id'', JStr ''7'')]), (''message'', JObj [])]"
         and tm = "Some (JNum 1000)"
         and c = "DdpCall ''bot'' ''webhookUpdate''
            (JArr [JObj [(''token'', JStr ''k''), (''facebookAccountId'', JStr ''42''),
               (''data'', JObj [(''object'', JStr ''page''),
                  (''entry'', JArr
                     [JObj [(''time'', JNum 1000), (''id'', JStr ''42''),
                            (''messaging'',
                             JArr [JObj [(''sender'', JObj [(''id'', JStr ''7'')]),
                                         (''message'', JObj [])]])]])])]])"
         and t = False
         and ps = "[Issued (DdpCall ''bot'' ''webhookUpdate''
            (JArr [JObj [(''token'', JStr ''k''), (''facebookAccountId'', JStr ''42''),
               (''data'', JObj [(''object'', JStr ''page''),
                  (''entry'', JArr
                     [JObj [(''time'', JNum 1000), (''id'', JStr ''42''),
                            (''messaging'',
                             JArr [JObj [(''sender'', JObj [(''id'', JStr ''7'')]),
                                         (''message'', JObj [])]])]])])]]))
          False]"]
  by (simp add: pushItem_def subscribed_def validateFields_def MESSAGE_FIELD_MAP_def
        start_push_def Push_ddp_def getBody_def read_prop_def opt_pair_def)

text \<open>
  C7 as stated fails for a matched pair whose item has neither a \<^verbatim>\<open>field\<close> nor a
  \<^verbatim>\<open>sender\<close>: a member \<^verbatim>\<open>{value: {}}\<close> of a \<^verbatim>\<open>changes\<close> array matches a
  service that lists no fields, and the envelope posted for it holds the entry's
  \<^verbatim>\<open>time\<close> and \<^verbatim>\<open>id\<close> and not the item.
\<close>

theorem envelope_without_item_counterexample:
  "subscribed
     \<lparr>svc_type = Some ''http'', svc_fields = None, svc_test = False, svc_token = None,
       svc_url = ''http://svc'', svc_methodName = []\<rparr>
     (JObj [(''value'', JObj [])]) = Inr True
   \<and> pushItem
     \<lparr>fbVerifyToken = None, clientSecret = ''s'',
       services = [(''svc'', \<lparr>svc_type = Some ''http'', svc_fields = None, svc_test = False,
                      svc_token = None, svc_url = ''http://svc'', svc_methodName = []\<rparr>)],
       ddpClients = None, hmac_sha1_hex = (\<lambda>key data. key @ data)\<rparr>
     (Some (JStr ''42'')) (JObj [(''value'', JObj [])]) (Some (JNum 1000))
     = Inr [Issued (HttpPost ''http://svc''
              (JObj [(''object'', JStr ''page''),
                     (''entry'', JArr [JObj [(''time'', JNum 1000), (''id'', JStr ''42'')]])]))
            False]
   \<and> \<not> wraps_item
         (JObj [(''object'', JStr ''page''),
                (''entry'', JArr [JObj [(''time'', JNum 1000), (''id'', JStr ''42'')]])])
         (JObj [(''value'', JObj [])])"
  by (simp add: pushItem_def subscribed_def start_push_def Push_http_def getBody_def
        read_prop_def opt_pair_def)

section \<open>Settling\<close>

lemma drain_nothing: "drain [] cs = []"
  by (induction cs) auto

lemma map_of_without: "map_of (without i pend) j = (if j = i then None else map_of pend j)"
  unfolding without_def by (induction pend) auto

lemma keys_without: "fst ` set (without i pend) = fst ` set pend - {i}"
  unfolding without_def by auto

lemma not_pending: "map_of pend i = None \<longleftrightarrow> i \<notin> fst ` set pend"
  by (simp add: map_of_eq_None_iff)

lemma drain_only_settles: "\<not> list_ex is_Respond (drain pend cs)"
  by (induction pend cs rule: drain.induct) (auto split: option.splits)

lemma calls_only_call: "\<not> list_ex is_Respond (calls_from i ps)"
  by (induction i ps rule: calls_from.induct) auto

lemma response_200_not_500: "sendStatus 200 \<noteq> Response 500 b"
  by (simp add: sendStatus_def)

lemma response_500_not_200: "Response 500 b \<noteq> sendStatus 200"
  by (simp add: sendStatus_def)

lemma await_all_shape:
  assumes "pend \<noteq> []" and "fst ` set pend \<subseteq> fst ` set cs"
  shows "\<exists>pre r post.
           await_all pend cs = pre @ Respond r # post
         \<and> pre @ post = drain pend cs
         \<and> pre \<noteq> []
         \<and> \<not> list_ex is_rejection (butlast pre)
         \<and> ((r = sendStatus 200 \<and> post = [] \<and> \<not> list_ex is_rejection pre)
            \<or> (\<exists>i err. r = Response 500 (SendError err) \<and> last pre = Settle i (Rejected err)))"
  using assms
proof (induction cs arbitrary: pend)
  case Nil
  then show ?case by (cases pend) auto
next
  case (Cons c cs)
  obtain i out where c: "c = (i, out)" by (cases c)
  show ?case
  proof (cases "map_of pend i")
    case None
    then have "i \<notin> fst ` set pend" by (simp add: not_pending)
    with Cons.prems c have "fst ` set pend \<subseteq> fst ` set cs" by auto
    from Cons.IH [OF Cons.prems(1) this] show ?thesis using None c by simp
  next
    case (Some t)
    show ?thesis
    proof (cases "Push_settle t out")
      case (Rejected err)
      have "await_all pend (c # cs)
              = [Settle i (Rejected err)] @ Respond (Response 500 (SendError err))
                  # drain (without i pend) cs"
        using Some Rejected c by simp
      moreover have "drain pend (c # cs) = [Settle i (Rejected err)] @ drain (without i pend) cs"
        using Some Rejected c by simp
      ultimately show ?thesis
        by (rule_tac x = "[Settle i (Rejected err)]" in exI,
            rule_tac x = "Response 500 (SendError err)" in exI,
            rule_tac x = "drain (without i pend) cs" in exI) simp
    next
      case (Fulfilled v)
      show ?thesis
      proof (cases "without i pend = []")
        case True
        have "await_all pend (c # cs) = [Settle i (Fulfilled v)] @ Respond (sendStatus 200) # []"
          using Some Fulfilled c True by (simp add: drain_nothing)
        moreover have "drain pend (c # cs) = [Settle i (Fulfilled v)] @ []"
          using Some Fulfilled c True by (simp add: drain_nothing)
        ultimately show ?thesis
          by (rule_tac x = "[Settle i (Fulfilled v)]" in exI,
              rule_tac x = "sendStatus 200" in exI,
              rule_tac x = "[]" in exI) simp
      next
        case False
        have sub: "fst ` set (without i pend) \<subseteq> fst ` set cs"
          using Cons.prems(2) c by (auto simp: keys_without)
        from Cons.IH [OF False sub] obtain pre r post where
          a: "await_all (without i pend) cs = pre @ Respond r # post"
          and d: "pre @ post = drain (without i pend) cs"
          and ne: "pre \<noteq> []"
          and bl: "\<not> list_ex is_rejection (butlast pre)"
          and v: "(r = sendStatus 200 \<and> post = [] \<and> \<not> list_ex is_rejection pre)
                  \<or> (\<exists>i err. r = Response 500 (SendError err)
                        \<and> last pre = Settle i (Rejected err))"
          by blast
        have "await_all pend (c # cs) = (Settle i (Fulfilled v) # pre) @ Respond r # post"
          using Some Fulfilled c False a by simp
        moreover have "drain pend (c # cs) = (Settle i (Fulfilled v) # pre) @ post"
          using Some Fulfilled c d [symmetric] by simp
        moreover have "\<not> list_ex is_rejection (butlast (Settle i (Fulfilled v) # pre))"
          using ne bl by simp
        moreover have "(r = sendStatus 200 \<and> post = []
                          \<and> \<not> list_ex is_rejection (Settle i (Fulfilled v) # pre))
                  \<or> (\<exists>j err. r = Response 500 (SendError err)
                        \<and> last (Settle i (Fulfilled v) # pre) = Settle j (Rejected err))"
          using v ne by auto
        ultimately show ?thesis
          by (rule_tac x = "Settle i (Fulfilled v) # pre" in exI,
              rule_tac x = r in exI, rule_tac x = post in exI) simp
      qed
    qed
  qed
qed

lemma Promise_all_shape:
  assumes cover: "fst ` set (pending_from 0 ps) \<subseteq> fst ` set cs"
  shows "\<exists>pre r post.
           Promise_all ps cs = pre @ Respond r # post
         \<and> pre @ post = drain (pending_from 0 ps) cs
         \<and> \<not> list_ex is_rejection (butlast pre)
         \<and> (r = sendStatus 200 \<longleftrightarrow>
               first_refused ps = None \<and> first_broken ps = None
               \<and> \<not> list_ex is_rejection (drain (pending_from 0 ps) cs))
         \<and> (r = sendStatus 200 \<longrightarrow> post = [])
         \<and> (r \<noteq> sendStatus 200 \<longrightarrow>
               (\<exists>err. r = Response 500 (SendError err)
                  \<and> (if pre = []
                     then first_refused ps = Some err
                          \<or> first_refused ps = None \<and> first_broken ps = Some err
                     else \<exists>i. last pre = Settle i (Rejected err))))"
proof (cases "first_refused ps")
  case (Some err)
  then have "Promise_all ps cs
               = [] @ Respond (Response 500 (SendError err)) # drain (pending_from 0 ps) cs"
    by (simp add: Promise_all_def)
  then show ?thesis using Some response_200_not_500 [of "SendError err"]
    by (rule_tac x = "[]" in exI, rule_tac x = "Response 500 (SendError err)" in exI,
        rule_tac x = "drain (pending_from 0 ps) cs" in exI) auto
next
  case None
  note nr = None
  show ?thesis
  proof (cases "first_broken ps")
    case (Some err)
    then have "Promise_all ps cs
                 = [] @ Respond (Response 500 (SendError err)) # drain (pending_from 0 ps) cs"
      using nr by (simp add: Promise_all_def)
    then show ?thesis using Some nr response_200_not_500 [of "SendError err"]
      by (rule_tac x = "[]" in exI, rule_tac x = "Response 500 (SendError err)" in exI,
          rule_tac x = "drain (pending_from 0 ps) cs" in exI) auto
  next
    case None
    note nb = None
    show ?thesis
    proof (cases "pending_from 0 ps = []")
      case True
      then have "Promise_all ps cs = [] @ Respond (sendStatus 200) # []"
        using nr nb by (simp add: Promise_all_def)
      then show ?thesis using True nr nb
        by (rule_tac x = "[]" in exI, rule_tac x = "sendStatus 200" in exI,
            rule_tac x = "[]" in exI) (simp add: drain_nothing)
    next
      case False
      from await_all_shape [OF False cover] obtain pre r post where
        a: "await_all (pending_from 0 ps) cs = pre @ Respond r # post"
        and d: "pre @ post = drain (pending_from 0 ps) cs"
        and ne: "pre \<noteq> []"
        and bl: "\<not> list_ex is_rejection (butlast pre)"
        and v: "(r = sendStatus 200 \<and> post = [] \<and> \<not> list_ex is_rejection pre)
                \<or> (\<exists>i err. r = Response 500 (SendError err)
                      \<and> last pre = Settle i (Rejected err))"
        by blast
      have pa: "Promise_all ps cs = pre @ Respond r # post"
        using False nr nb a by (simp add: Promise_all_def)
      have rej_last: "list_ex is_rejection pre" if "last pre = Settle i (Rejected err)" for i err
      proof -
        have "last pre \<in> set pre" using ne by simp
        then show ?thesis using that by (auto simp: list_ex_iff intro!: bexI [of _ "last pre"])
      qed
      have iff: "r = sendStatus 200 \<longleftrightarrow> \<not> list_ex is_rejection (pre @ post)"
        using v rej_last response_200_not_500 response_500_not_200 by (auto simp: list_ex_iff)
      show ?thesis
        using pa d [symmetric] bl iff v ne nr nb response_200_not_500 response_500_not_200
        by (rule_tac x = pre in exI, rule_tac x = r in exI, rule_tac x = post in exI) auto
    qed
  qed
qed

lemma drain_without_rejection:
  assumes "\<forall>c \<in> set cs. isl (snd c) \<longrightarrow> map_of pend (fst c) \<noteq> Some False"
  shows "\<not> list_ex is_rejection (drain pend cs)"
  using assms
proof (induction cs arbitrary: pend)
  case Nil
  then show ?case by simp
next
  case (Cons c cs)
  obtain i out where c: "c = (i, out)" by (cases c)
  have rest: "\<forall>c \<in> set cs. isl (snd c) \<longrightarrow> map_of (without i pend) (fst c) \<noteq> Some False"
    using Cons.prems by (auto simp: map_of_without)
  have here: "\<not> is_rejection (Settle i (Push_settle t out))" if "map_of pend i = Some t" for t
    using Cons.prems c that by (cases out) auto
  show ?case
    using c here Cons.IH [OF rest] Cons.IH [of pend] Cons.prems
    by (auto split: option.splits)
qed

lemma signed_feed_request_awaited:
  "app (two_services t) signed_feed_request =
     ([ValidateRequest, AuthorizeFacebook, VerifyHubSignature, Handler],
      Awaited [[Issued (HttpPost ''http://a'' feed_outbound) t,
                Issued (HttpPost ''http://b'' feed_outbound) False]])"
  by (simp add: app_unfold validateRequest_def authorizeFacebook_def verifyHubSignature_def
        two_services_def signed_feed_request_def http_service_def feed_envelope_def
        feed_outbound_def feed_item_def subscriptionHandler_def read_prop_def entry_items_def
        item_promises_def pushItem_def subscribed_def start_push_def Push_http_def
        getBody_def opt_pair_def)

text \<open>
  C1, as the code has it. For a notification the handler takes as far as
  \<^verbatim>\<open>Promise.all\<close>, with every delivery in flight reported on at some time: all calls
  are issued first. Then there is exactly one response, and every delivery settles as it
  would have without it. It is 200 exactly when no delivery was rejected at the start
  and none settles rejected (a failure of a test service settles fulfilled), and it then
  follows the last settlement. Otherwise it is 500 with the error of the first rejection, and it
  comes at once: before every settlement when a delivery was rejected at the start, else
  directly after the first delivery that settles rejected, with only fulfilments before
  it and the remaining deliveries settling after the response.
\<close>

theorem gatekeeper_answers_at_first_rejection:
  assumes "snd (app e req) = Awaited promises"
    and "fst ` set (pending_from 0 (concat promises)) \<subseteq> fst ` set cs"
  shows "\<exists>pre r post.
           gatekeeper e req cs = calls_from 0 (concat promises) @ pre @ Respond r # post
         \<and> \<not> list_ex is_Respond (calls_from 0 (concat promises) @ pre @ post)
         \<and> pre @ post = drain (pending_from 0 (concat promises)) cs
         \<and> \<not> list_ex is_rejection (butlast pre)
         \<and> (r = sendStatus 200 \<longleftrightarrow>
               first_refused (concat promises) = None \<and> first_broken (concat promises) = None
               \<and> \<not> list_ex is_rejection (drain (pending_from 0 (concat promises)) cs))
         \<and> (r = sendStatus 200 \<longrightarrow> post = [])
         \<and> (r \<noteq> sendStatus 200 \<longrightarrow>
               (\<exists>err. r = Response 500 (SendError err)
                  \<and> (if pre = []
                     then first_refused (concat promises) = Some err
                          \<or> first_refused (concat promises) = None
                            \<and> first_broken (concat promises) = Some err
                     else \<exists>i. last pre = Settle i (Rejected err))))"
proof -
  have g: "gatekeeper e req cs
             = calls_from 0 (concat promises) @ Promise_all (concat promises) cs"
    using assms(1) by (simp add: gatekeeper_def)
  have quiet: "\<not> list_ex is_Respond
                  (calls_from 0 (concat promises) @ drain (pending_from 0 (concat promises)) cs)"
    using calls_only_call [of 0 "concat promises"]
      drain_only_settles [of "pending_from 0 (concat promises)" cs]
    by simp
  from Promise_all_shape [OF assms(2)] obtain pre r post where
    shape: "Promise_all (concat promises) cs = pre @ Respond r # post"
    and split: "pre @ post = drain (pending_from 0 (concat promises)) cs"
    and rest: "\<not> list_ex is_rejection (butlast pre)
         \<and> (r = sendStatus 200 \<longleftrightarrow>
               first_refused (concat promises) = None \<and> first_broken (concat promises) = None
               \<and> \<not> list_ex is_rejection (drain (pending_from 0 (concat promises)) cs))
         \<and> (r = sendStatus 200 \<longrightarrow> post = [])
         \<and> (r \<noteq> sendStatus 200 \<longrightarrow>
               (\<exists>err. r = Response 500 (SendError err)
                  \<and> (if pre = []
                     then first_refused (concat promises) = Some err
                          \<or> first_refused (concat promises) = None
                            \<and> first_broken (concat promises) = Some err
                     else \<exists>i. last pre = Settle i (Rejected err))))"
    by blast
  have one: "\<not> list_ex is_Respond (calls_from 0 (concat promises) @ pre @ post)"
    using quiet split by simp
  have trace: "gatekeeper e req cs = calls_from 0 (concat promises) @ pre @ Respond r # post"
    using g shape by simp
  from trace one split rest show ?thesis by blast
qed

theorem gatekeeper_answers_at_first_rejection_witness:
  "snd (app (two_services False) signed_feed_request)
     = Awaited [[Issued (HttpPost ''http://a'' feed_outbound) False,
                 Issued (HttpPost ''http://b'' feed_outbound) False]]
   \<and> (\<exists>pre r post.
        gatekeeper (two_services False) signed_feed_request
            [(1, Inr JNull), (0, Inl (DeliveryError ''ECONNREFUSED''))]
          = [Call 0 (HttpPost ''http://a'' feed_outbound),
             Call 1 (HttpPost ''http://b'' feed_outbound)] @ pre @ Respond r # post
        \<and> pre @ post = [Settle 1 (Fulfilled (Some JNull)),
                         Settle 0 (Rejected (DeliveryError ''ECONNREFUSED''))]
        \<and> r \<noteq> sendStatus 200)"
proof -
  have h1: "snd (app (two_services False) signed_feed_request)
     = Awaited [[Issued (HttpPost ''http://a'' feed_outbound) False,
                 Issued (HttpPost ''http://b'' feed_outbound) False]]"
    by (simp add: signed_feed_request_awaited)
  have h2: "fst ` set (pending_from 0 (concat [[Issued (HttpPost ''http://a'' feed_outbound) False,
                 Issued (HttpPost ''http://b'' feed_outbound) False]]))
              \<subseteq> fst ` set [(1, Inr JNull), (0, Inl (DeliveryError ''ECONNREFUSED''))]"
    by simp
  from gatekeeper_answers_at_first_rejection [OF h1 h2] obtain pre r post where
    "gatekeeper (two_services False) signed_feed_request
            [(1, Inr JNull), (0, Inl (DeliveryError ''ECONNREFUSED''))]
          = calls_from 0 (concat [[Issued (HttpPost ''http://a'' feed_outbound) False,
                 Issued (HttpPost ''http://b'' feed_outbound) False]]) @ pre @ Respond r # post"
    and "pre @ post = drain (pending_from 0 (concat [[Issued (HttpPost ''http://a'' feed_outbound) False,
                 Issued (HttpPost ''http://b'' feed_outbound) False]]))
            [(1, Inr JNull), (0, Inl (DeliveryError ''ECONNREFUSED''))]"
    and "r = sendStatus 200 \<longleftrightarrow>
           first_refused (concat [[Issued (HttpPost ''http://a'' feed_outbound) False,
                 Issued (HttpPost ''http://b'' feed_outbound) False]]) = None
           \<and> first_broken (concat [[Issued (HttpPost ''http://a'' feed_outbound) False,
                 Issued (HttpPost ''http://b'' feed_outbound) False]]) = None
           \<and> \<not> list_ex is_rejection
                (drain (pending_from 0 (concat [[Issued (HttpPost ''http://a'' feed_outbound) False,
                 Issued (HttpPost ''http://b'' feed_outbound) False]]))
                   [(1, Inr JNull), (0, Inl (DeliveryError ''ECONNREFUSED''))])"
    by blast
  then have "gatekeeper (two_services False) signed_feed_request
            [(1, Inr JNull), (0, Inl (DeliveryError ''ECONNREFUSED''))]
          = [Call 0 (HttpPost ''http://a'' feed_outbound),
             Call 1 (HttpPost ''http://b'' feed_outbound)] @ pre @ Respond r # post
        \<and> pre @ post = [Settle 1 (Fulfilled (Some JNull)),
                         Settle 0 (Rejected (DeliveryError ''ECONNREFUSED''))]
        \<and> r \<noteq> sendStatus 200"
    by (simp add: without_def)
  with h1 show ?thesis by blast
qed

text \<open>
  C1 as stated fails when a delivery fails while another is still in flight: with two
  services that are not test services, the first refusing the connection before the second
  has answered, the 500 goes out after the first settlement and the second delivery
  settles after the response.
\<close>

theorem response_before_last_settlement_counterexample:
  "gatekeeper (two_services False) signed_feed_request
      [(0, Inl (DeliveryError ''ECONNREFUSED'')), (1, Inr JNull)]
     = [Call 0 (HttpPost ''http://a'' feed_outbound),
        Call 1 (HttpPost ''http://b'' feed_outbound),
        Settle 0 (Rejected (DeliveryError ''ECONNREFUSED'')),
        Respond (Response 500 (SendError (DeliveryError ''ECONNREFUSED''))),
        Settle 1 (Fulfilled (Some JNull))]
   \<and> \<not> settled_before_response
        (gatekeeper (two_services False) signed_feed_request
           [(0, Inl (DeliveryError ''ECONNREFUSED'')), (1, Inr JNull)])"
  by (simp add: gatekeeper_def signed_feed_request_awaited Promise_all_def without_def)

text \<open>
  C3. A failure reported for a delivery to a test service settles it fulfilled, without a
  value; for any other service it settles it rejected with the error. The flag is the
  service's \<^verbatim>\<open>test\<close>, whichever of the two transports issued the call. So a batch in
  which every delivery was issued and every failure is a test service's is answered 200,
  after the last settlement. For a batch of two issued deliveries of which the first fails
  and the second succeeds, in either order of completion: when the first is a test
  service's the response is 200, else it is 500 with the error; both calls are issued
  either way.
\<close>

theorem test_service_failure_suppressed:
  "Push_settle True (Inl err) = Fulfilled None
   \<and> Push_settle False (Inl err) = Rejected err
   \<and> (start_push clients name svc fid item tm = Issued c flag \<longrightarrow> flag = svc_test svc)
   \<and> (first_refused ps = None \<and> first_broken ps = None
        \<and> fst ` set (pending_from 0 ps) \<subseteq> fst ` set cs
        \<and> (\<forall>c \<in> set cs. isl (snd c) \<longrightarrow> map_of (pending_from 0 ps) (fst c) \<noteq> Some False)
      \<longrightarrow> Promise_all ps cs = drain (pending_from 0 ps) cs @ [Respond (sendStatus 200)])
   \<and> calls_from 0 [Issued a t, Issued b u] = [Call 0 a, Call 1 b]
   \<and> Promise_all [Issued a True, Issued b u] [(0, Inl err), (1, Inr res)]
       = [Settle 0 (Fulfilled None), Settle 1 (Fulfilled (Some res)), Respond (sendStatus 200)]
   \<and> Promise_all [Issued a True, Issued b u] [(1, Inr res), (0, Inl err)]
       = [Settle 1 (Fulfilled (Some res)), Settle 0 (Fulfilled None), Respond (sendStatus 200)]
   \<and> Promise_all [Issued a False, Issued b u] [(0, Inl err), (1, Inr res)]
       = [Settle 0 (Rejected err), Respond (Response 500 (SendError err)),
          Settle 1 (Fulfilled (Some res))]
   \<and> Promise_all [Issued a False, Issued b u] [(1, Inr res), (0, Inl err)]
       = [Settle 1 (Fulfilled (Some res)), Settle 0 (Rejected err),
          Respond (Response 500 (SendError err))]"
proof -
  have flag: "start_push clients name svc fid item tm = Issued c flag \<longrightarrow> flag = svc_test svc"
    using start_push_issued [of clients name svc fid item tm c flag] by blast
  have general: "Promise_all ps cs = drain (pending_from 0 ps) cs @ [Respond (sendStatus 200)]"
    if nr: "first_refused ps = None" and nb: "first_broken ps = None"
      and cover: "fst ` set (pending_from 0 ps) \<subseteq> fst ` set cs"
      and tests: "\<forall>c \<in> set cs. isl (snd c) \<longrightarrow> map_of (pending_from 0 ps) (fst c) \<noteq> Some False"
  proof -
    have quiet: "\<not> list_ex is_rejection (drain (pending_from 0 ps) cs)"
      using tests by (rule drain_without_rejection)
    from Promise_all_shape [OF cover] obtain pre r post where
      pa: "Promise_all ps cs = pre @ Respond r # post"
      and d: "pre @ post = drain (pending_from 0 ps) cs"
      and ok: "r = sendStatus 200 \<longleftrightarrow>
               first_refused ps = None \<and> first_broken ps = None
               \<and> \<not> list_ex is_rejection (drain (pending_from 0 ps) cs)"
      and last: "r = sendStatus 200 \<longrightarrow> post = []"
      by blast
    from ok nr nb quiet have r: "r = sendStatus 200" by simp
    with last have "post = []" by simp
    with pa d r show ?thesis by simp
  qed
  have two: "calls_from 0 [Issued a t, Issued b u] = [Call 0 a, Call 1 b]"
    "Promise_all [Issued a True, Issued b u] [(0, Inl err), (1, Inr res)]
       = [Settle 0 (Fulfilled None), Settle 1 (Fulfilled (Some res)), Respond (sendStatus 200)]"
    "Promise_all [Issued a True, Issued b u] [(1, Inr res), (0, Inl err)]
       = [Settle 1 (Fulfilled (Some res)), Settle 0 (Fulfilled None), Respond (sendStatus 200)]"
    "Promise_all [Issued a False, Issued b u] [(0, Inl err), (1, Inr res)]
       = [Settle 0 (Rejected err), Respond (Response 500 (SendError err)),
          Settle 1 (Fulfilled (Some res))]"
    "Promise_all [Issued a False, Issued b u] [(1, Inr res), (0, Inl err)]
       = [Settle 1 (Fulfilled (Some res)), Settle 0 (Rejected err),
          Respond (Response 500 (SendError err))]"
    by (simp_all add: Promise_all_def without_def)
  from flag general two show ?thesis by simp
qed

theorem test_service_failure_suppressed_witness:
  "start_push None ''a'' (http_service ''http://a'' True) (Some (JStr ''42'')) feed_item
       (Some (JNum 1000))
     = Issued (HttpPost ''http://a'' feed_outbound) True
   \<and> svc_test (http_service ''http://a'' True)
   \<and> gatekeeper (two_services True) signed_feed_request
        [(1, Inr JNull), (0, Inl (DeliveryError ''ECONNREFUSED''))]
     = [Call 0 (HttpPost ''http://a'' feed_outbound),
        Call 1 (HttpPost ''http://b'' feed_outbound),
        Settle 1 (Fulfilled (Some JNull)),
        Settle 0 (Fulfilled None),
        Respond (sendStatus 200)]"
proof -
  have issued: "start_push None ''a'' (http_service ''http://a'' True) (Some (JStr ''42''))
       feed_item (Some (JNum 1000))
     = Issued (HttpPost ''http://a'' feed_outbound) True"
    by (simp add: start_push_def http_service_def Push_http_def getBody_def read_prop_def
          opt_pair_def feed_item_def feed_outbound_def)
  note inst = test_service_failure_suppressed
      [where clients = None and name = "''a''" and svc = "http_service ''http://a'' True"
         and fid = "Some (JStr ''42'')" and item = feed_item and tm = "Some (JNum 1000)"
         and c = "HttpPost ''http://a'' feed_outbound" and flag = True
         and ps = "[Issued (HttpPost ''http://a'' feed_outbound) True,
                    Issued (HttpPost ''http://b'' feed_outbound) False]"
         and cs = "[(1, Inr JNull), (0, Inl (DeliveryError ''ECONNREFUSED''))]"]
  from inst issued have flag: "svc_test (http_service ''http://a'' True)" by simp
  from inst have "Promise_all [Issued (HttpPost ''http://a'' feed_outbound) True,
                    Issued (HttpPost ''http://b'' feed_outbound) False]
            [(1, Inr JNull), (0, Inl (DeliveryError ''ECONNREFUSED''))]
         = drain (pending_from 0 [Issued (HttpPost ''http://a'' feed_outbound) True,
                    Issued (HttpPost ''http://b'' feed_outbound) False])
             [(1, Inr JNull), (0, Inl (DeliveryError ''ECONNREFUSED''))]
           @ [Respond (sendStatus 200)]"
    by (simp add: without_def)
  then have "gatekeeper (two_services True) signed_feed_request
        [(1, Inr JNull), (0, Inl (DeliveryError ''ECONNREFUSED''))]
     = [Call 0 (HttpPost ''http://a'' feed_outbound),
        Call 1 (HttpPost ''http://b'' feed_outbound),
        Settle 1 (Fulfilled (Some JNull)),
        Settle 0 (Fulfilled None),
        Respond (sendStatus 200)]"
    by (simp add: gatekeeper_def signed_feed_request_awaited without_def)
  with issued flag show ?thesis by simp
qed

section \<open>Transports the relay does not have\<close>

text \<open>
  A type that is neither of the two transports nor a name objects inherit is refused with
  the message, whatever the service's \<^verbatim>\<open>test\<close> flag, and a refusal is what the
  request is answered with.
\<close>

lemma unsupported_type_refused:
  assumes "svc_type svc \<noteq> Some ''ddp''" and "svc_type svc \<noteq> Some ''http''"
    and "svc_type svc \<notin> Some ` set Object_prototype_names"
  shows "start_push clients name svc fid item tm = Refused (Reason ''Service type not supported'')"
  using assms by (auto simp: start_push_def split: option.splits)

lemma refused_fails_the_batch:
  assumes "first_refused ps = Some err"
  shows "Promise_all ps cs = Respond (Response 500 (SendError err)) # drain (pending_from 0 ps) cs"
  using assms by (simp add: Promise_all_def)

text \<open>
  C8 at a type that names a property every object inherits. For a service whose
  \<^verbatim>\<open>type\<close> is \<^verbatim>\<open>"toString"\<close>, \<^verbatim>\<open>push[service.type]\<close> is the inherited
  function, so the branch that rejects with \<^verbatim>\<open>Service type not supported\<close> is not
  taken: the call returns a string, \<^verbatim>\<open>.then\<close> on it raises, and the delivery is
  rejected with that \<^verbatim>\<open>TypeError\<close>, which is what the request is answered with.
\<close>

theorem inherited_type_name_raises:
  "start_push clients name
     \<lparr>svc_type = Some ''toString'', svc_fields = fs, svc_test = True, svc_token = tok,
       svc_url = u, svc_methodName = mn\<rparr> fid item tm = Refused TypeError
   \<and> Refused TypeError \<noteq> Refused (Reason ''Service type not supported'')
   \<and> gatekeeper
       \<lparr>fbVerifyToken = None, clientSecret = ''s'',
         services = [(''svc'', \<lparr>svc_type = Some ''toString'', svc_fields = None,
                        svc_test = True, svc_token = None, svc_url = ''http://svc'',
                        svc_methodName = []\<rparr>)],
         ddpClients = None, hmac_sha1_hex = (\<lambda>key data. key @ data)\<rparr>
       \<lparr>query = [], headers = [(''x-hub-signature'', ''sha1=s{}'')], rawBody = Some ''{}'',
         body = JObj [(''object'', JStr ''page''),
                      (''entry'', JArr
                         [JObj [(''id'', JStr ''42''), (''time'', JNum 1000),
                                (''changes'', JArr [JObj [(''field'', JStr ''feed''),
                                                        (''value'', JObj [])]])]])]\<rparr>
       cs
     = [Respond (Response 500 (SendError TypeError))]"
  by (simp add: start_push_def Object_prototype_names_def gatekeeper_def app_unfold
        validateRequest_def authorizeFacebook_def verifyHubSignature_def
        subscriptionHandler_def read_prop_def entry_items_def item_promises_def
        pushItem_def subscribed_def Promise_all_def drain_nothing)

end
